theory Spec2Isabelle
  imports Main "HOL-Library.Word" "HOL-Library.AList"
begin

unbundle bit_operations_syntax

section \<open>Values of the run-time\<close>

text \<open>
  A Node \<open>Buffer\<close> is a list of bytes. A JavaScript string is a list of UTF-16 code
  units. Identifiers, aliases and other ASCII literals of the source are HOL strings.
  JavaScript numbers that hold sizes and positions are \<open>int\<close> (or \<open>nat\<close> where the
  source cannot make them negative); the 32-bit conversions of the bitwise operators are
  written out.
\<close>

type_synonym byte = "8 word"
type_synonym buffer = "byte list"
type_synonym jsstring = "16 word list"

text \<open>
  What a call can do other than return: raise a \<open>RangeError\<close> or a \<open>TypeError\<close>, or
  never return (\<open>Diverges\<close>). \<open>IllTyped\<close> marks an argument that the declared
  TypeScript type of the parameter excludes.
\<close>

datatype error = RangeError | TypeError | Diverges | IllTyped

definition ascii :: "string \<Rightarrow> buffer" where
  "ascii s = map of_char s"

definition js :: "string \<Rightarrow> jsstring" where
  "js s = map of_char s"

subsection \<open>Bitwise operators on numbers\<close>

definition toInt32 :: "int \<Rightarrow> int" where
  "toInt32 x = signed_take_bit 31 x"

text \<open>\<^verbatim>\<open>x >> k\<close>\<close>
definition js_shr :: "int \<Rightarrow> nat \<Rightarrow> int" where
  "js_shr x k = drop_bit k (toInt32 x)"

text \<open>\<^verbatim>\<open>x << k\<close>\<close>
definition js_shl :: "int \<Rightarrow> nat \<Rightarrow> int" where
  "js_shl x k = toInt32 (push_bit k (toInt32 x))"

text \<open>\<^verbatim>\<open>x & y\<close>\<close>
definition js_and :: "int \<Rightarrow> int \<Rightarrow> int" where
  "js_and x y = toInt32 x AND toInt32 y"

subsection \<open>Buffer operations\<close>

text \<open>The operations of Node's \<open>Buffer\<close> that the repository calls.\<close>

text \<open>\<^verbatim>\<open>buf[i]\<close>: \<open>None\<close> is \<^verbatim>\<open>undefined\<close>.\<close>
definition buf_at :: "buffer \<Rightarrow> nat \<Rightarrow> byte option" where
  "buf_at buf i = (if i < length buf then Some (buf ! i) else None)"

text \<open>\<^verbatim>\<open>Buffer.from([v0, v1, ...])\<close> on bytes read from a buffer: \<^verbatim>\<open>undefined\<close> becomes 0.\<close>
definition buf_from_array :: "byte option list \<Rightarrow> buffer" where
  "buf_from_array vs = map (\<lambda>v. case v of None \<Rightarrow> 0 | Some b \<Rightarrow> b) vs"

text \<open>
  \<^verbatim>\<open>Buffer.alloc(size)\<close>: zero-filled; a negative size raises. (The upper limit of Node
  is above every size this program can compute from four size bytes.)
\<close>
definition buf_alloc :: "int \<Rightarrow> error + buffer" where
  "buf_alloc n = (if n < 0 then Inl RangeError else Inr (replicate (nat n) 0))"

text \<open>
  \<^verbatim>\<open>source.copy(target, targetStart, sourceStart)\<close>, returning the target after the copy.
  Releases of Node differ on a source start beyond the end of the source: some raise
  a \<open>RangeError\<close>, some copy nothing. The flag \<open>strict\<close> selects the first behaviour.
\<close>
definition buf_copy :: "bool \<Rightarrow> buffer \<Rightarrow> buffer \<Rightarrow> nat \<Rightarrow> nat \<Rightarrow> error + buffer" where
  "buf_copy strict source target targetStart sourceStart =
     (if length source < sourceStart then (if strict then Inl RangeError else Inr target)
      else
        let n = min (length target - targetStart) (length source - sourceStart)
        in Inr (take targetStart target @ take n (drop sourceStart source)
                @ drop (targetStart + n) target))"

text \<open>\<^verbatim>\<open>buf.slice(start, end)\<close> and \<^verbatim>\<open>buf.slice(start)\<close> for non-negative arguments.\<close>
definition buf_slice :: "buffer \<Rightarrow> nat \<Rightarrow> nat \<Rightarrow> buffer" where
  "buf_slice buf start stop = take (stop - start) (drop start buf)"

definition buf_slice_from :: "buffer \<Rightarrow> nat \<Rightarrow> buffer" where
  "buf_slice_from buf start = drop start buf"

text \<open>Overwrite the bytes of \<open>buf\<close> from \<open>offset\<close> on, never growing the buffer.\<close>
definition buf_put :: "buffer \<Rightarrow> nat \<Rightarrow> buffer \<Rightarrow> buffer" where
  "buf_put buf offset bytes =
     (let n = min (length bytes) (length buf - offset)
      in take offset buf @ take n bytes @ drop (offset + n) buf)"

text \<open>\<^verbatim>\<open>buf.write(string, offset)\<close> for the ASCII literals and identifiers the source writes.\<close>
definition buf_write :: "buffer \<Rightarrow> string \<Rightarrow> nat \<Rightarrow> buffer" where
  "buf_write buf s offset = buf_put buf offset (ascii s)"

text \<open>\<^verbatim>\<open>buf.writeUInt8(value, offset)\<close> and \<^verbatim>\<open>buf.writeUInt16BE(value, offset)\<close>, for
  values in range (all call sites pass constants or 7-bit values).\<close>
definition writeUInt8 :: "buffer \<Rightarrow> byte \<Rightarrow> nat \<Rightarrow> buffer" where
  "writeUInt8 buf v offset = buf_put buf offset [v]"

definition writeUInt16BE :: "buffer \<Rightarrow> int \<Rightarrow> nat \<Rightarrow> buffer" where
  "writeUInt16BE buf v offset =
     buf_put buf offset [word_of_int (v div 256), word_of_int (v mod 256)]"

text \<open>\<^verbatim>\<open>buf.writeUInt32BE(value, offset)\<close>: a value outside 0 .. 2^32 - 1 raises.\<close>
definition writeUInt32BE :: "buffer \<Rightarrow> int \<Rightarrow> nat \<Rightarrow> error + buffer" where
  "writeUInt32BE buf v offset =
     (if v < 0 \<or> 4294967295 < v then Inl RangeError
      else Inr (buf_put buf offset
             [word_of_int (v div 16777216), word_of_int (v div 65536 mod 256),
              word_of_int (v div 256 mod 256), word_of_int (v mod 256)]))"

text \<open>\<^verbatim>\<open>buf.readUIntBE(0, n)\<close> on a buffer of exactly \<open>n\<close> bytes.\<close>
definition readUIntBE :: "buffer \<Rightarrow> int" where
  "readUIntBE buf = foldl (\<lambda>acc b. acc * 256 + uint b) 0 buf"

text \<open>\<^verbatim>\<open>buf.readUInt32BE(offset)\<close>, used to state properties of encoded frames.\<close>
definition readUInt32BE :: "buffer \<Rightarrow> nat \<Rightarrow> int" where
  "readUInt32BE buf offset = readUIntBE (take 4 (drop offset buf))"

text \<open>
  \<^verbatim>\<open>buf.indexOf(pattern, byteOffset)\<close> for a non-empty byte pattern: the first position at
  or after \<open>byteOffset\<close> where the pattern occurs; \<open>None\<close> is the result -1.
\<close>
fun find_from :: "buffer \<Rightarrow> buffer \<Rightarrow> nat \<Rightarrow> nat option" where
  "find_from pat [] i = None"
| "find_from pat (x # xs) i =
     (if take (length pat) (x # xs) = pat then Some i else find_from pat xs (Suc i))"

definition buf_indexOf :: "buffer \<Rightarrow> buffer \<Rightarrow> nat \<Rightarrow> nat option" where
  "buf_indexOf buf pat byteOffset = find_from pat (drop byteOffset buf) byteOffset"

subsection \<open>String operations\<close>

text \<open>\<^verbatim>\<open>s.substring(a, b)\<close>: both indices are clamped to the string, and swapped when
  \<open>a > b\<close>. \<^verbatim>\<open>s.substring(a)\<close> runs to the end.\<close>
definition clamp_index :: "'a list \<Rightarrow> int \<Rightarrow> nat" where
  "clamp_index s i = min (nat i) (length s)"

definition substring :: "'a list \<Rightarrow> int \<Rightarrow> int \<Rightarrow> 'a list" where
  "substring s a b =
     (let a' = clamp_index s a; b' = clamp_index s b
      in take (max a' b' - min a' b') (drop (min a' b') s))"

definition substring_from :: "'a list \<Rightarrow> int \<Rightarrow> 'a list" where
  "substring_from s a = drop (clamp_index s a) s"

text \<open>\<^verbatim>\<open>s.replace(/\0/g, "")\<close>\<close>
definition strip_nul :: "jsstring \<Rightarrow> jsstring" where
  "strip_nul s = filter (\<lambda>c. c \<noteq> 0) s"

text \<open>The result of \<open>indexOf\<close> as a number.\<close>
definition index_num :: "nat option \<Rightarrow> int" where
  "index_num r = (case r of None \<Rightarrow> - 1 | Some i \<Rightarrow> int i)"

subsection \<open>UTF-8\<close>

text \<open>
  \<^verbatim>\<open>Buffer.from(string)\<close>: the UTF-8 encoding of a string. A surrogate pair is one
  four-byte sequence; an unpaired surrogate is encoded as U+FFFD.
\<close>

definition utf8_of_codepoint :: "nat \<Rightarrow> buffer" where
  "utf8_of_codepoint cp =
     (if cp < 0x80 then [of_nat cp]
      else if cp < 0x800 then [of_nat (0xC0 + cp div 64), of_nat (0x80 + cp mod 64)]
      else if cp < 0x10000 then
        [of_nat (0xE0 + cp div 4096), of_nat (0x80 + cp div 64 mod 64), of_nat (0x80 + cp mod 64)]
      else
        [of_nat (0xF0 + cp div 262144), of_nat (0x80 + cp div 4096 mod 64),
         of_nat (0x80 + cp div 64 mod 64), of_nat (0x80 + cp mod 64)])"

definition is_high_surrogate :: "16 word \<Rightarrow> bool" where
  "is_high_surrogate c = (0xD800 \<le> c \<and> c < 0xDC00)"

definition is_low_surrogate :: "16 word \<Rightarrow> bool" where
  "is_low_surrogate c = (0xDC00 \<le> c \<and> c < 0xE000)"

fun utf8_encode :: "jsstring \<Rightarrow> buffer" where
  "utf8_encode [] = []"
| "utf8_encode [c] =
     (if is_high_surrogate c \<or> is_low_surrogate c then [0xEF, 0xBF, 0xBD]
      else utf8_of_codepoint (unat c))"
| "utf8_encode (c # d # cs) =
     (if is_high_surrogate c \<and> is_low_surrogate d then
        utf8_of_codepoint (0x10000 + (unat c - 0xD800) * 1024 + (unat d - 0xDC00))
        @ utf8_encode cs
      else if is_high_surrogate c \<or> is_low_surrogate c then
        [0xEF, 0xBF, 0xBD] @ utf8_encode (d # cs)
      else utf8_of_codepoint (unat c) @ utf8_encode (d # cs))"

text \<open>
  \<^verbatim>\<open>buf.toString()\<close>: UTF-8 decoding that replaces every maximal ill-formed part by
  U+FFFD, as the decoder of the WHATWG Encoding standard does.
\<close>

definition is_cont :: "byte \<Rightarrow> bool" where
  "is_cont b = (0x80 \<le> b \<and> b \<le> 0xBF)"

definition utf16_of_codepoint :: "nat \<Rightarrow> jsstring" where
  "utf16_of_codepoint cp =
     (if cp < 0x10000 then [of_nat cp]
      else [of_nat (0xD800 + (cp - 0x10000) div 1024), of_nat (0xDC00 + (cp - 0x10000) mod 1024)])"

text \<open>The allowed range of the second byte after the lead byte \<open>b\<close>.\<close>
definition second_lo :: "byte \<Rightarrow> byte" where
  "second_lo b = (if b = 0xE0 then 0xA0 else if b = 0xF0 then 0x90 else 0x80)"

definition second_hi :: "byte \<Rightarrow> byte" where
  "second_hi b = (if b = 0xED then 0x9F else if b = 0xF4 then 0x8F else 0xBF)"

fun utf8_decode :: "buffer \<Rightarrow> jsstring" where
  "utf8_decode [] = []"
| "utf8_decode (b # bs) =
     (if b < 0x80 then ucast b # utf8_decode bs
      else if 0xC2 \<le> b \<and> b \<le> 0xDF then
        (case bs of
           [] \<Rightarrow> [0xFFFD]
         | b1 # r1 \<Rightarrow>
             if is_cont b1 then
               utf16_of_codepoint ((unat b - 0xC0) * 64 + (unat b1 - 0x80)) @ utf8_decode r1
             else 0xFFFD # utf8_decode bs)
      else if 0xE0 \<le> b \<and> b \<le> 0xEF then
        (case bs of
           [] \<Rightarrow> [0xFFFD]
         | b1 # r1 \<Rightarrow>
             if second_lo b \<le> b1 \<and> b1 \<le> second_hi b then
               (case r1 of
                  [] \<Rightarrow> [0xFFFD]
                | b2 # r2 \<Rightarrow>
                    if is_cont b2 then
                      utf16_of_codepoint
                        ((unat b - 0xE0) * 4096 + (unat b1 - 0x80) * 64 + (unat b2 - 0x80))
                      @ utf8_decode r2
                    else 0xFFFD # utf8_decode r1)
             else 0xFFFD # utf8_decode bs)
      else if 0xF0 \<le> b \<and> b \<le> 0xF4 then
        (case bs of
           [] \<Rightarrow> [0xFFFD]
         | b1 # r1 \<Rightarrow>
             if second_lo b \<le> b1 \<and> b1 \<le> second_hi b then
               (case r1 of
                  [] \<Rightarrow> [0xFFFD]
                | b2 # r2 \<Rightarrow>
                    if is_cont b2 then
                      (case r2 of
                         [] \<Rightarrow> [0xFFFD]
                       | b3 # r3 \<Rightarrow>
                           if is_cont b3 then
                             utf16_of_codepoint
                               ((unat b - 0xF0) * 262144 + (unat b1 - 0x80) * 4096
                                + (unat b2 - 0x80) * 64 + (unat b3 - 0x80))
                             @ utf8_decode r3
                           else 0xFFFD # utf8_decode r2)
                    else 0xFFFD # utf8_decode r1)
             else 0xFFFD # utf8_decode bs)
      else 0xFFFD # utf8_decode bs)"

text \<open>
  \<^verbatim>\<open>buf.toString("utf8", 0, n)\<close> where the result is only compared with ASCII
  identifiers and looked up in tables keyed by them: the bytes are kept one character
  each. A byte of 0x80 or more gives a character that no identifier contains, as the
  decoded string would.
\<close>
definition name_of :: "buffer \<Rightarrow> string" where
  "name_of bs = map (\<lambda>b. char_of (unat b)) bs"


section \<open>The text codec (library \<open>iconv-lite\<close>)\<close>

text \<open>
  The library is a dependency of the repository and not part of its sources; the
  definitions below give the behaviour of its two codecs that the repository calls.

  \<^verbatim>\<open>iconv.encode(s, "utf16")\<close>: the byte-order mark FF FE, then every code unit, low
  byte first.
\<close>
definition iconv_encode_utf16 :: "jsstring \<Rightarrow> buffer" where
  "iconv_encode_utf16 s = [0xFF, 0xFE] @ concat (map (\<lambda>c. [ucast c, ucast (drop_bit 8 c)]) s)"

fun utf16le_units :: "buffer \<Rightarrow> jsstring" where
  "utf16le_units (lo # hi # rest) = (ucast lo OR push_bit 8 (ucast hi)) # utf16le_units rest"
| "utf16le_units _ = []"

fun utf16be_units :: "buffer \<Rightarrow> jsstring" where
  "utf16be_units (hi # lo # rest) = (ucast lo OR push_bit 8 (ucast hi)) # utf16be_units rest"
| "utf16be_units _ = []"

text \<open>
  The decoder picks the byte order: from a byte-order mark if there is one, otherwise by
  counting, over the leading pairs of bytes (at most 64 bytes), the pairs that would be
  an ASCII character in each order; little-endian when the counts tie.
\<close>
fun count_ascii :: "buffer \<Rightarrow> nat \<times> nat" where
  "count_ascii (b0 # b1 # rest) =
     (let (be, le) = count_ascii rest
      in ((if b0 = 0 \<and> b1 \<noteq> 0 then Suc be else be),
          (if b0 \<noteq> 0 \<and> b1 = 0 then Suc le else le)))"
| "count_ascii _ = (0, 0)"

definition detect_big_endian :: "buffer \<Rightarrow> bool" where
  "detect_big_endian buf =
     (if take 2 buf = [0xFE, 0xFF] then True
      else if take 2 buf = [0xFF, 0xFE] then False
      else let (be, le) = count_ascii (take 64 buf) in le < be)"

definition strip_bom :: "jsstring \<Rightarrow> jsstring" where
  "strip_bom s = (case s of [] \<Rightarrow> [] | c # cs \<Rightarrow> if c = 0xFEFF then cs else c # cs)"

text \<open>\<^verbatim>\<open>iconv.decode(buf, "utf16")\<close>: an odd last byte is dropped, a leading byte-order
  mark is removed.\<close>
definition iconv_decode_utf16 :: "buffer \<Rightarrow> jsstring" where
  "iconv_decode_utf16 buf =
     strip_bom (if detect_big_endian buf then utf16be_units buf else utf16le_units buf)"

text \<open>\<^verbatim>\<open>iconv.decode(buf, "ISO-8859-1")\<close>: one character per byte.\<close>
definition iconv_decode_latin1 :: "buffer \<Rightarrow> jsstring" where
  "iconv_decode_latin1 buf = map ucast buf"

section \<open>Frame definitions (\<open>frameDefinitions.ts\<close>)\<close>

record special_text =
  text' :: jsstring
  language :: "jsstring option"
  shortText :: jsstring

record user_defined_text =
  description :: jsstring
  value' :: jsstring

text \<open>
  The values a property of \<open>IFrames\<close> holds, and the ones the decoder returns: a string,
  a special text frame, a user defined text frame, an image buffer, the empty object
  \<^verbatim>\<open>{}\<close>, an array.
\<close>
datatype frame_value =
    TextValue jsstring
  | SpecialTextValue special_text
  | UserDefinedTextValue user_defined_text
  | ImageValue buffer
  | EmptyObject
  | ArrayValue "frame_value list"

text \<open>An object is the list of its entries, in the order of \<^verbatim>\<open>Object.entries\<close>.\<close>
type_synonym frames = "(string \<times> frame_value) list"

definition textFrames :: "(string \<times> string) list" where
  "textFrames =
     [(''album'', ''TALB''), (''bpm'', ''TBPM''), (''composer'', ''TCOM''),
      (''genre'', ''TCON''), (''copyright'', ''TCOP''), (''date'', ''TDAT''),
      (''playlistDelay'', ''TDLY''), (''encodedBy'', ''TENC''), (''textWriter'', ''TEXT''),
      (''fileType'', ''TFLT''), (''time'', ''TIME''), (''contentGroup'', ''TIT1''),
      (''title'', ''TIT2''), (''subtitle'', ''TIT3''), (''initialKey'', ''TKEY''),
      (''language'', ''TLAN''), (''length'', ''TLEN''), (''mediaType'', ''TMED''),
      (''originalTitle'', ''TOAL''), (''originalFilename'', ''TOFN''),
      (''originalTextwriter'', ''TOLY''), (''originalArtist'', ''TOPE''),
      (''originalYear'', ''TORY''), (''fileOwner'', ''TOWN''), (''artist'', ''TPE1''),
      (''performerInfo'', ''TPE2''), (''conductor'', ''TPE3''), (''remixArtist'', ''TPE4''),
      (''partOfSet'', ''TPOS''), (''publisher'', ''TPUB''), (''trackNumber'', ''TRCK''),
      (''recordingDates'', ''TRDA''), (''internetRadioName'', ''TRSN''),
      (''internetRadioOwner'', ''TRSO''), (''size'', ''TSIZ''), (''ISRC'', ''TSRC''),
      (''encodingTechnology'', ''TSSE''), (''year'', ''TYER'')]"

definition textFramesV220 :: "(string \<times> string) list" where
  "textFramesV220 =
     [(''album'', ''TAL''), (''bpm'', ''TBP''), (''composer'', ''TCM''),
      (''genre'', ''TCO''), (''copyright'', ''TCR''), (''date'', ''TDA''),
      (''playlistDelay'', ''TDY''), (''encodedBy'', ''TEN''), (''textWriter'', ''TXT''),
      (''fileType'', ''TFT''), (''time'', ''TIM''), (''contentGroup'', ''TT1''),
      (''title'', ''TT2''), (''subtitle'', ''TT3''), (''initialKey'', ''TKE''),
      (''language'', ''TLA''), (''length'', ''TLE''), (''mediaType'', ''TMT''),
      (''originalTitle'', ''TOT''), (''originalFilename'', ''TOF''),
      (''originalTextwriter'', ''TOL''), (''originalArtist'', ''TOA''),
      (''originalYear'', ''TOR''), (''artist'', ''TP1''), (''performerInfo'', ''TP2''),
      (''conductor'', ''TP3''), (''remixArtist'', ''TP4''), (''partOfSet'', ''TPA''),
      (''publisher'', ''TPB''), (''trackNumber'', ''TRK''), (''recordingDates'', ''TRD''),
      (''size'', ''TSI''), (''ISRC'', ''TRC''), (''encodingTechnology'', ''TSS''),
      (''year'', ''TYE'')]"

definition specialFrames :: "(string \<times> string) list" where
  "specialFrames =
     [(''comment'', ''COMM''), (''image'', ''APIC''), (''unsynchronisedLyrics'', ''USLT''),
      (''userDefinedText'', ''TXXX'')]"

definition specialFramesV220 :: "(string \<times> string) list" where
  "specialFramesV220 = [(''image'', ''PIC'')]"

text \<open>
  Assigning the entries of an object to a target in order (the object spread
  \<^verbatim>\<open>{...a, ...b}\<close> and \<^verbatim>\<open>Object.fromEntries\<close>): a key that is already there keeps its
  place and takes the new value.
\<close>
definition assign :: "('k \<times> 'v) list \<Rightarrow> ('k \<times> 'v) list \<Rightarrow> ('k \<times> 'v) list" where
  "assign target entries = fold (\<lambda>(k, v) acc. AList.update k v acc) entries target"

definition spread :: "('k \<times> 'v) list list \<Rightarrow> ('k \<times> 'v) list" where
  "spread objs = fold (\<lambda>obj acc. assign acc obj) objs []"

text \<open>\<open>utils.ts\<close>\<close>
definition flipObject :: "('k \<times> 'v) list \<Rightarrow> ('v \<times> 'k) list" where
  "flipObject obj = assign [] (map (\<lambda>(key, v). (v, key)) obj)"

text \<open>The result \<open>None\<close> is \<^verbatim>\<open>undefined\<close>.\<close>
definition convertNameToAlias :: "string \<Rightarrow> string option" where
  "convertNameToAlias frameName =
     map_of (flipObject (spread [textFrames, specialFrames, textFramesV220, specialFramesV220]))
       frameName"

definition convertAliasToName :: "string \<Rightarrow> string option" where
  "convertAliasToName frameAlias = map_of (spread [textFrames, specialFrames]) frameAlias"

definition canHaveMultipleEntries :: "string \<Rightarrow> bool" where
  "canHaveMultipleEntries frameName = (frameName = ''TXXX'')"

definition isTextFrame :: "string \<Rightarrow> bool" where
  "isTextFrame frameName =
     ((case frameName of [] \<Rightarrow> False | c # _ \<Rightarrow> c = CHR ''T'') \<and> frameName \<noteq> ''TXXX'')"


section \<open>Encoding frames (\<open>FrameEncoder\<close>)\<close>

definition createTextFrame :: "string \<Rightarrow> jsstring \<Rightarrow> error + buffer" where
  "createTextFrame frameName frameValue =
     (let encoded = iconv_encode_utf16 frameValue;
          buffer = buf_write (replicate 10 0) frameName 0
      in case writeUInt32BE buffer (int (length encoded) + 1) 4 of
           Inl e \<Rightarrow> Inl e
         | Inr buffer' \<Rightarrow> Inr (concat [buffer', replicate 1 1, encoded]))"

text \<open>The language bytes pushed by \<open>createSpecialTextFrame\<close> (no bytes for TXXX).\<close>
definition languageBuffer :: "string \<Rightarrow> special_text \<Rightarrow> buffer list" where
  "languageBuffer frameName data =
     (if frameName \<noteq> ''TXXX'' then
        [utf8_encode (case language data of
                        None \<Rightarrow> js ''eng''
                      | Some l \<Rightarrow> substring l 0 3)]
      else [])"

definition contentDescriptorBuffer :: "special_text \<Rightarrow> buffer" where
  "contentDescriptorBuffer data =
     (if shortText data = [] then iconv_encode_utf16 [0]
      else concat [iconv_encode_utf16 (shortText data), replicate 2 0])"

definition createSpecialTextFrame :: "string \<Rightarrow> special_text \<Rightarrow> error + buffer" where
  "createSpecialTextFrame frameName data =
     (let buffers = [[0x01]] @ languageBuffer frameName data
                    @ [contentDescriptorBuffer data] @ [iconv_encode_utf16 (text' data)];
          headerBuffer = buf_write (replicate 10 0) frameName 0
      in case writeUInt32BE headerBuffer (int (foldl (\<lambda>acc cur. acc + length cur) 0 buffers)) 4 of
           Inl e \<Rightarrow> Inl e
         | Inr headerBuffer' \<Rightarrow> Inr (concat (headerBuffer' # buffers)))"

text \<open>
  Reading the properties \<open>text\<close>, \<open>language\<close> and \<open>shortText\<close> of a value: a value
  without them gives \<^verbatim>\<open>undefined\<close> three times, which \<open>createSpecialTextFrame\<close> encodes
  as it does the empty strings and the absent language.
\<close>
definition as_special_text :: "frame_value \<Rightarrow> special_text" where
  "as_special_text v =
     (case v of
        SpecialTextValue d \<Rightarrow> d
      | _ \<Rightarrow> \<lparr>text' = [], language = None, shortText = []\<rparr>)"

text \<open>Destructuring \<^verbatim>\<open>{ description, value }\<close> of an entry, likewise.\<close>
definition as_user_defined_text :: "frame_value \<Rightarrow> user_defined_text" where
  "as_user_defined_text v =
     (case v of
        UserDefinedTextValue u \<Rightarrow> u
      | _ \<Rightarrow> \<lparr>description = [], value' = []\<rparr>)"

text \<open>The loop of \<open>createUserDefinedTextFrame\<close>; \<open>None\<close> is \<^verbatim>\<open>undefined\<close>.\<close>
fun userDefinedTextLoop :: "buffer option \<Rightarrow> frame_value list \<Rightarrow> error + buffer option" where
  "userDefinedTextLoop buffer [] = Inr buffer"
| "userDefinedTextLoop buffer (entry # entries) =
     (case createSpecialTextFrame ''TXXX''
             \<lparr>text' = value' (as_user_defined_text entry), language = None,
              shortText = description (as_user_defined_text entry)\<rparr> of
        Inl e \<Rightarrow> Inl e
      | Inr singleBuffer \<Rightarrow>
          userDefinedTextLoop
            (case buffer of None \<Rightarrow> Some singleBuffer | Some b \<Rightarrow> Some (concat [b, singleBuffer]))
            entries)"

definition createUserDefinedTextFrame :: "frame_value \<Rightarrow> error + buffer option" where
  "createUserDefinedTextFrame data =
     (let entries = (case data of ArrayValue xs \<Rightarrow> xs | _ \<Rightarrow> [data])
      in userDefinedTextLoop None entries)"

text \<open>
  \<open>createImageFrame\<close>. A value that is not a buffer makes \<^verbatim>\<open>Buffer.concat\<close> raise.
\<close>
definition createImageFrame :: "frame_value \<Rightarrow> error + buffer" where
  "createImageFrame v =
     (case v of
        ImageValue apicData \<Rightarrow>
          (let bHeader = buf_write (replicate 10 0) ''APIC'' 0;
               mimeType = (if buf_at apicData 0 = Some 0xFF \<and> buf_at apicData 1 = Some 0xD8
                              \<and> buf_at apicData 2 = Some 0xFF
                           then ''image/jpeg'' else ''image/png'');
               bContent = buf_write
                            (buf_put (replicate (length mimeType + 4) 0) (length mimeType + 2) [0x03])
                            mimeType 1
           in case writeUInt32BE bHeader (int (length apicData + length bContent)) 4 of
                Inl e \<Rightarrow> Inl e
              | Inr bHeader' \<Rightarrow> Inr (concat [bHeader', bContent, apicData]))
      | _ \<Rightarrow> Inl TypeError)"

definition createSpecialFrame :: "string \<Rightarrow> frame_value \<Rightarrow> error + buffer option" where
  "createSpecialFrame frameName frameValue =
     (if frameName = ''COMM'' then
        map_sum id Some (createSpecialTextFrame frameName (as_special_text frameValue))
      else if frameName = ''APIC'' then
        map_sum id Some (createImageFrame frameValue)
      else if frameName = ''USLT'' then
        map_sum id Some (createSpecialTextFrame frameName (as_special_text frameValue))
      else if frameName = ''TXXX'' then
        createUserDefinedTextFrame frameValue
      else Inr None)"

text \<open>
  \<open>encodeFrames\<close>. An alias outside the tables has the name \<^verbatim>\<open>undefined\<close>, and
  \<open>isTextFrame\<close> raises on reading its first character. The value of a text alias is a
  string by the type \<open>IFrames\<close>.
\<close>
fun encodeFrames :: "frames \<Rightarrow> error + buffer list" where
  "encodeFrames [] = Inr []"
| "encodeFrames ((frameAlias, frameValue) # rest) =
     (case convertAliasToName frameAlias of
        None \<Rightarrow> Inl TypeError
      | Some frameName \<Rightarrow>
          (case (if isTextFrame frameName then
                   (case frameValue of
                      TextValue s \<Rightarrow> map_sum id Some (createTextFrame frameName s)
                    | _ \<Rightarrow> Inl IllTyped)
                 else createSpecialFrame frameName frameValue) of
             Inl e \<Rightarrow> Inl e
           | Inr frame \<Rightarrow>
               (case encodeFrames rest of
                  Inl e \<Rightarrow> Inl e
                | Inr frameBuffers \<Rightarrow>
                    Inr (case frame of None \<Rightarrow> frameBuffers | Some f \<Rightarrow> f # frameBuffers))))"

section \<open>Decoding frames (\<open>FrameDecoder\<close>)\<close>

text \<open>\<open>IDecodedFrame\<close>\<close>
record decoded_frame =
  frameName :: string
  body :: buffer

text \<open>
  The search for the end of the descriptor in a frame of encoding 1,
  \<^verbatim>\<open>for(i; data[i] !== undefined && data[i] !== 0x00 || data[i + 1] !== 0x00 || data[i + 2] === 0x00; i++);\<close>
  The result \<open>None\<close> is a loop that never ends.
\<close>
partial_function (option) scan_descriptor :: "buffer \<Rightarrow> nat \<Rightarrow> nat option" where
  "scan_descriptor data i =
     (if (buf_at data i \<noteq> None \<and> buf_at data i \<noteq> Some 0)
         \<or> buf_at data (i + 1) \<noteq> Some 0 \<or> buf_at data (i + 2) = Some 0
      then scan_descriptor data (i + 1)
      else Some i)"

declare scan_descriptor.simps [code]

definition readSpecialTextFrame :: "buffer \<Rightarrow> error + frame_value" where
  "readSpecialTextFrame data =
     (if buf_at data 0 = Some 0x00 then
        (let s = iconv_decode_latin1 data;
             idx = index_num (buf_indexOf data [0x00] 1)
         in Inr (SpecialTextValue
              \<lparr>text' = strip_nul (substring_from s (idx + 1)),
               language = Some (strip_nul (substring s 1 4)),
               shortText = strip_nul (substring s 4 idx)\<rparr>))
      else if buf_at data 0 = Some 0x01 then
        (case scan_descriptor data 0 of
           None \<Rightarrow> Inl Diverges
         | Some i \<Rightarrow>
             if buf_at data i = None then Inr EmptyObject
             else Inr (SpecialTextValue
                    \<lparr>text' = strip_nul (iconv_decode_utf16 (buf_slice_from data (i + 2))),
                     language = Some (strip_nul (substring (utf8_decode data) 1 4)),
                     shortText = strip_nul (iconv_decode_utf16 (buf_slice data 4 i))\<rparr>))
      else Inr EmptyObject)"

definition readImageFrame :: "buffer \<Rightarrow> byte option \<Rightarrow> buffer" where
  "readImageFrame data version =
     (let descOffset = (if version = Some 2 then 5
                        else index_num (buf_indexOf data [0x00] 1) + 2);
          descEnd = (if buf_at data 0 = Some 0x00
                     then index_num (buf_indexOf data [0x00] (nat descOffset))
                     else descOffset
                          + index_num (buf_indexOf (buf_slice_from data (nat descOffset)) [0x00, 0x00] 0)
                          + 2)
      in buf_slice_from data (if descEnd = 0 then nat (descEnd + 1) else 5))"

text \<open>\<open>readUserDefinedTextFrame\<close> (its call of \<open>printBuffer\<close> only prints). The result
  \<open>None\<close> is \<^verbatim>\<open>undefined\<close>.\<close>
definition readUserDefinedTextFrame :: "buffer \<Rightarrow> error + frame_value option" where
  "readUserDefinedTextFrame data =
     (if buf_at data 0 = Some 0x00 then
        (let s = iconv_decode_latin1 data;
             idx = index_num (buf_indexOf data [0x00] 1)
         in Inr (Some (UserDefinedTextValue
              \<lparr>description = strip_nul (substring s 1 idx),
               value' = strip_nul (substring_from s (idx + 1))\<rparr>)))
      else if buf_at data 0 = Some 0x01 then
        (case scan_descriptor data 0 of
           None \<Rightarrow> Inl Diverges
         | Some i \<Rightarrow>
             if buf_at data i = None then Inr (Some EmptyObject)
             else Inr (Some (UserDefinedTextValue
                    \<lparr>description = strip_nul (iconv_decode_utf16 (buf_slice data 1 i)),
                     value' = strip_nul (iconv_decode_utf16 (buf_slice_from data (i + 2)))\<rparr>)))
      else Inr None)"

definition readSpecialFrame :: "string \<Rightarrow> buffer \<Rightarrow> byte option \<Rightarrow> error + frame_value option" where
  "readSpecialFrame name data version =
     (if name = ''COMM'' then map_sum id Some (readSpecialTextFrame data)
      else if name = ''PIC'' \<or> name = ''APIC'' then Inr (Some (ImageValue (readImageFrame data version)))
      else if name = ''USLT'' then map_sum id Some (readSpecialTextFrame data)
      else if name = ''TXXX'' then readUserDefinedTextFrame data
      else Inr None)"

text \<open>The key that \<^verbatim>\<open>obj[alias]\<close> uses: \<^verbatim>\<open>undefined\<close> is the key "undefined".\<close>
definition property_key :: "string option \<Rightarrow> string" where
  "property_key alias = (case alias of None \<Rightarrow> ''undefined'' | Some a \<Rightarrow> a)"

text \<open>
  The loop of \<open>decodeFrames\<close>, with \<open>decodedFrames\<close> as accumulator. For the repeatable
  frame, a property that is absent or the empty string is replaced by a new array;
  \<open>push\<close> on a value that is no array raises.
\<close>
fun decodeLoop :: "frames \<Rightarrow> decoded_frame list \<Rightarrow> byte option \<Rightarrow> error + frames" where
  "decodeLoop decodedFrames [] version = Inr decodedFrames"
| "decodeLoop decodedFrames (f # fs) version =
     (if (case frameName f of [] \<Rightarrow> False | c # _ \<Rightarrow> c = CHR ''T'') \<and> frameName f \<noteq> ''TXXX'' then
        (let decoded = strip_nul
                         (if buf_at (body f) 0 = Some 0x01
                          then iconv_decode_utf16 (buf_slice_from (body f) 1)
                          else iconv_decode_latin1 (buf_slice_from (body f) 1));
             alias = convertNameToAlias (frameName f)
         in decodeLoop (AList.update (property_key alias) (TextValue decoded) decodedFrames) fs version)
      else
        (case readSpecialFrame (frameName f) (body f) version of
           Inl e \<Rightarrow> Inl e
         | Inr None \<Rightarrow> decodeLoop decodedFrames fs version
         | Inr (Some decoded) \<Rightarrow>
             (let alias = convertNameToAlias (frameName f)
              in if canHaveMultipleEntries (frameName f) then
                   (case map_of decodedFrames (property_key alias) of
                      None \<Rightarrow>
                        decodeLoop (AList.update (property_key alias) (ArrayValue [decoded]) decodedFrames)
                          fs version
                    | Some (TextValue []) \<Rightarrow>
                        decodeLoop (AList.update (property_key alias) (ArrayValue [decoded]) decodedFrames)
                          fs version
                    | Some (ArrayValue xs) \<Rightarrow>
                        decodeLoop
                          (AList.update (property_key alias) (ArrayValue (xs @ [decoded])) decodedFrames)
                          fs version
                    | Some _ \<Rightarrow> Inl TypeError)
                 else
                   decodeLoop (AList.update (property_key alias) decoded decodedFrames) fs version)))"

definition decodeFrames :: "decoded_frame list \<Rightarrow> byte option \<Rightarrow> error + frames" where
  "decodeFrames fs version = decodeLoop [] fs version"


section \<open>The facade (\<open>NodeID3\<close> in \<open>index.ts\<close>), on buffers\<close>

text \<open>\<open>getFramePosition\<close>; the result \<open>None\<close> is -1.\<close>
definition getFramePosition :: "buffer \<Rightarrow> nat option" where
  "getFramePosition buffer =
     (case buf_indexOf buffer (ascii ''ID3'') 0 of
        None \<Rightarrow> None
      | Some framePosition \<Rightarrow> if framePosition > 20 then None else Some framePosition)"

text \<open>\<open>decodeSize\<close>. Every call passes a buffer of four bytes.\<close>
definition decodeSize :: "buffer \<Rightarrow> int" where
  "decodeSize buffer =
     js_shl (uint (buffer ! 0)) 21 + js_shl (uint (buffer ! 1)) 14
     + js_shl (uint (buffer ! 2)) 7 + uint (buffer ! 3)"

text \<open>The array \<open>size\<close> that \<open>create\<close> computes from \<open>totalSize\<close>; every element is a
  number of seven bits.\<close>
definition encodeSize :: "int \<Rightarrow> buffer" where
  "encodeSize totalSize =
     [word_of_int (js_and (js_shr totalSize 21) 0x7F),
      word_of_int (js_and (js_shr totalSize 14) 0x7F),
      word_of_int (js_and (js_shr totalSize 7) 0x7F),
      word_of_int (js_and totalSize 0x7F)]"

definition create :: "frames \<Rightarrow> error + buffer" where
  "create frms =
     (let header = writeUInt16BE (writeUInt16BE (buf_write (replicate 10 0) ''ID3'' 0) 0x0300 3)
                     0x0000 5
      in case encodeFrames frms of
           Inl e \<Rightarrow> Inl e
         | Inr encoded \<Rightarrow>
             (let frameBuffers = header # encoded;
                  totalSize = foldl (\<lambda>acc cur. acc + int (length cur)) 0 frameBuffers - 10;
                  size = encodeSize totalSize;
                  header' = writeUInt8 (writeUInt8 (writeUInt8 (writeUInt8 header
                              (size ! 0) 6) (size ! 1) 7) (size ! 2) 8) (size ! 3) 9
              in Inr (concat (header' # encoded))))"

definition version_gt2 :: "byte option \<Rightarrow> bool" where
  "version_gt2 v = (case v of None \<Rightarrow> False | Some b \<Rightarrow> 2 < b)"

text \<open>The \<open>while\<close> loop of \<open>read\<close>, from \<open>currentPosition\<close> on; it returns \<open>frames\<close>.\<close>
function readFrames ::
    "bool \<Rightarrow> buffer \<Rightarrow> int \<Rightarrow> byte option \<Rightarrow> nat \<Rightarrow> error + decoded_frame list" where
  "readFrames strict ID3FrameBody frameSize ID3Version currentPosition =
     (if int currentPosition < frameSize - 10 \<and> buf_at ID3FrameBody currentPosition \<noteq> Some 0x00 then
        (let identifierSize = (if ID3Version = Some 2 then 3 else 4);
             textframeHeaderSize = (if ID3Version = Some 2 then 6 else 10)
         in case buf_copy strict ID3FrameBody (replicate textframeHeaderSize 0) 0 currentPosition of
              Inl e \<Rightarrow> Inl e
            | Inr bodyFrameHeader \<Rightarrow>
                (let frameSizeBuffer = buf_from_array
                       (if version_gt2 ID3Version
                        then [buf_at bodyFrameHeader 4, buf_at bodyFrameHeader 5,
                              buf_at bodyFrameHeader 6, buf_at bodyFrameHeader 7]
                        else [buf_at bodyFrameHeader 3, buf_at bodyFrameHeader 4,
                              buf_at bodyFrameHeader 5]);
                     bodyFrameSize = (if ID3Version = Some 4 then decodeSize frameSizeBuffer
                                      else readUIntBE frameSizeBuffer)
                 in if bodyFrameSize > frameSize - int currentPosition then Inr []
                    else
                      (case buf_alloc bodyFrameSize of
                         Inl e \<Rightarrow> Inl e
                       | Inr bodyFrameBuffer0 \<Rightarrow>
                           (case buf_copy strict ID3FrameBody bodyFrameBuffer0 0
                                   (currentPosition + textframeHeaderSize) of
                              Inl e \<Rightarrow> Inl e
                            | Inr bodyFrameBuffer \<Rightarrow>
                                (case readFrames strict ID3FrameBody frameSize ID3Version
                                        (currentPosition + nat bodyFrameSize + textframeHeaderSize) of
                                   Inl e \<Rightarrow> Inl e
                                 | Inr frms \<Rightarrow>
                                     Inr (\<lparr>frameName = name_of (take identifierSize bodyFrameHeader),
                                           body = bodyFrameBuffer\<rparr> # frms))))))
      else Inr [])"
  by pat_completeness auto
termination
  by (relation "measure (\<lambda>(strict, ID3FrameBody, frameSize, ID3Version, currentPosition).
        nat (frameSize - 10 - int currentPosition))") auto

text \<open>\<open>read\<close>, given a buffer.\<close>
definition read :: "bool \<Rightarrow> buffer \<Rightarrow> error + frames" where
  "read strict bufferToRead =
     (case getFramePosition bufferToRead of
        None \<Rightarrow> Inr []
      | Some framePosition \<Rightarrow>
          (let sizeBuffer = buf_slice bufferToRead framePosition (framePosition + 10);
               frameSize = decodeSize (buf_from_array
                             [buf_at sizeBuffer 6, buf_at sizeBuffer 7,
                              buf_at sizeBuffer 8, buf_at sizeBuffer 9])
           in (case buf_alloc (frameSize + 1) of
                 Inl e \<Rightarrow> Inl e
               | Inr ID3Frame0 \<Rightarrow>
                   (case buf_alloc (frameSize - 10 + 1) of
                      Inl e \<Rightarrow> Inl e
                    | Inr ID3FrameBody0 \<Rightarrow>
                        (case buf_copy strict bufferToRead ID3Frame0 0 framePosition of
                           Inl e \<Rightarrow> Inl e
                         | Inr ID3Frame \<Rightarrow>
                             (case buf_copy strict bufferToRead ID3FrameBody0 0 (framePosition + 10) of
                                Inl e \<Rightarrow> Inl e
                              | Inr ID3FrameBody \<Rightarrow>
                                  (let ID3Version = buf_at ID3Frame 3
                                   in case readFrames strict ID3FrameBody frameSize ID3Version 0 of
                                        Inl e \<Rightarrow> Inl e
                                      | Inr frms \<Rightarrow> decodeFrames frms ID3Version)))))))"

text \<open>What \<open>remove\<close> returns, given a buffer: a buffer, or \<^verbatim>\<open>false\<close>.\<close>
datatype remove_result = Removed buffer | InvalidTagSize

definition remove :: "buffer \<Rightarrow> remove_result" where
  "remove data =
     (case getFramePosition data of
        None \<Rightarrow> Removed data
      | Some ID3Offset \<Rightarrow>
          (let hSize = buf_from_array
                 [buf_at data (ID3Offset + 6), buf_at data (ID3Offset + 7),
                  buf_at data (ID3Offset + 8), buf_at data (ID3Offset + 9)]
           in if (hSize ! 0 OR hSize ! 1 OR hSize ! 2 OR hSize ! 3) AND 0x80 \<noteq> 0
              then InvalidTagSize
              else Removed (buf_slice_from data (ID3Offset + nat (decodeSize hSize) + 10))))"

text \<open>\<open>write\<close>, given a buffer. \<^verbatim>\<open>Buffer.concat\<close> raises on an element that is no buffer.\<close>
definition write' :: "buffer \<Rightarrow> frames \<Rightarrow> error + buffer" where
  "write' fileBuffer frms =
     (case create frms of
        Inl e \<Rightarrow> Inl e
      | Inr tag \<Rightarrow>
          (case remove fileBuffer of
             InvalidTagSize \<Rightarrow> Inl TypeError
           | Removed rest \<Rightarrow> Inr (concat [tag, rest])))"


section \<open>Auxiliary definitions\<close>

text \<open>The byte that \<^verbatim>\<open>Buffer.from([data[i]])\<close> holds: 0 when \<open>i\<close> is beyond the buffer.\<close>
definition size_byte :: "buffer \<Rightarrow> nat \<Rightarrow> byte" where
  "size_byte data i = (if i < length data then data ! i else 0)"


section \<open>The size header\<close>

lemma toInt32_id: "- 2147483648 \<le> x \<Longrightarrow> x < 2147483648 \<Longrightarrow> toInt32 x = x"
  unfolding toInt32_def by (rule signed_take_bit_int_eq_self) simp_all

lemma and_7F: "(x::int) AND 0x7F = x mod 128"
proof -
  have "x AND mask 7 = take_bit 7 x" by (simp add: take_bit_eq_mask)
  then show ?thesis by (simp add: mask_eq_exp_minus_1 take_bit_eq_mod)
qed

lemma js_and_7F: "js_and x 0x7F = toInt32 x mod 128"
proof -
  have "toInt32 0x7F = 0x7F" by (intro toInt32_id) simp_all
  then show ?thesis by (simp add: js_and_def and_7F)
qed

lemma septet:
  assumes "0 \<le> x" "x < 2147483648"
  shows "js_and x 0x7F = x mod 128"
proof -
  have "toInt32 x = x" using assms by (intro toInt32_id) simp_all
  then show ?thesis by (simp add: js_and_7F)
qed

lemma shr_small:
  assumes "0 \<le> x" "x < 2147483648"
  shows "js_shr x k = x div 2 ^ k"
proof -
  have "toInt32 x = x" using assms by (intro toInt32_id) simp_all
  then show ?thesis by (simp add: js_shr_def drop_bit_eq_div)
qed

lemma shl_byte:
  assumes "0 \<le> x" "x < 256" "k \<le> 21"
  shows "js_shl x k = x * 2 ^ k"
proof -
  have "x * 2 ^ k \<le> 255 * 2 ^ k" using assms by simp
  also have "(255::int) * 2 ^ k \<le> 255 * 2 ^ 21"
    using power_increasing [OF assms(3), of "2::int"] by simp
  finally have hi: "x * 2 ^ k < 2147483648" by simp
  have lo: "0 \<le> x * 2 ^ k" using assms by simp
  have "toInt32 x = x" using assms by (intro toInt32_id) simp_all
  moreover have "toInt32 (x * 2 ^ k) = x * 2 ^ k"
    using lo hi by (intro toInt32_id) simp_all
  ultimately show ?thesis by (simp add: js_shl_def push_bit_eq_mult)
qed

lemma uint_septet: "uint (word_of_int (y mod 128) :: byte) = y mod 128"
proof -
  have "0 \<le> y mod 128" "y mod 128 < 256"
    using pos_mod_bound [of 128 y] by simp_all
  then show ?thesis by (simp add: uint_word_of_int)
qed

lemma septet_shl:
  assumes "k \<le> 21"
  shows "js_shl (y mod 128) k = (y mod 128) * 2 ^ k"
proof -
  have "0 \<le> y mod 128" "y mod 128 < 256"
    using pos_mod_bound [of 128 y] by simp_all
  then show ?thesis using assms by (rule shl_byte)
qed

lemma byte_below_128: "(w :: byte) < 128 \<Longrightarrow> w AND 0x80 = 0"
proof -
  assume "w < 128"
  then have "w < 2 ^ 7" by simp
  then have t: "w AND mask 7 = w" by (rule less_mask_eq)
  have m: "(mask 7 :: byte) AND 0x80 = 0" by (simp add: mask_eq_exp_minus_1)
  have "w AND 0x80 = (w AND mask 7) AND 0x80" by (simp only: t)
  also have "\<dots> = w AND (mask 7 AND 0x80)" by (simp only: and.assoc)
  also have "\<dots> = 0" by (simp only: m and_zero_eq)
  finally show ?thesis .
qed

lemma septet_high_bit_clear: "(word_of_int (y mod 128) :: byte) AND 0x80 = 0"
proof -
  have "uint (word_of_int (y mod 128) :: byte) < 128"
    using pos_mod_bound [of 128 y] by (simp add: uint_septet)
  then have "(word_of_int (y mod 128) :: byte) < 128"
    by (simp add: word_less_def)
  then show ?thesis by (rule byte_below_128)
qed

lemma decodeSize_encodeSize:
  assumes "0 \<le> n" "n < 2 ^ 28"
  shows "decodeSize (encodeSize n) = n"
proof -
  define q1 where "q1 = n div 128"
  define q2 where "q2 = q1 div 128"
  define q3 where "q3 = q2 div 128"
  have n1: "n = q1 * 128 + n mod 128" by (simp add: q1_def)
  have n2: "q1 = q2 * 128 + q1 mod 128" by (simp add: q2_def)
  have n3: "q2 = q3 * 128 + q2 mod 128" by (simp add: q3_def)
  have s7: "n div 128 = q1" by (simp add: q1_def)
  have s14: "n div 16384 = q2"
    using zdiv_zmult2_eq [where a = n and b = 128 and c = 128] by (simp add: q1_def q2_def)
  have s21: "n div 2097152 = q3"
    using zdiv_zmult2_eq [where a = n and b = 16384 and c = 128] s14 by (simp add: q3_def)
  have q3b: "0 \<le> q3" "q3 < 128"
    using assms s21 by simp_all
  have q3m: "q3 mod 128 = q3" using q3b by simp
  have b: "0 \<le> n" "n < 2147483648" using assms by simp_all
  have e0: "js_and (js_shr n 21) 0x7F = q3 mod 128"
    using b q3b by (simp add: shr_small s21 septet)
  have e1: "js_and (js_shr n 14) 0x7F = q2 mod 128"
  proof -
    have "0 \<le> q2" "q2 < 2147483648" using assms s14 by simp_all
    then show ?thesis using b by (simp add: shr_small s14 septet)
  qed
  have e2: "js_and (js_shr n 7) 0x7F = q1 mod 128"
  proof -
    have "0 \<le> q1" "q1 < 2147483648" using assms s7 by simp_all
    then show ?thesis using b by (simp add: shr_small s7 septet)
  qed
  have e3: "js_and n 0x7F = n mod 128"
    using b by (simp add: septet)
  have "decodeSize (encodeSize n) =
        (q3 mod 128) * 2 ^ 21 + (q2 mod 128) * 2 ^ 14 + (q1 mod 128) * 2 ^ 7 + n mod 128"
    unfolding encodeSize_def e0 e1 e2 e3 decodeSize_def
    by (simp add: uint_septet septet_shl)
  also have "\<dots> = n"
    using n1 n2 n3 q3m by simp
  finally show ?thesis .
qed

lemma encodeSize_high_bits: "b \<in> set (encodeSize n) \<Longrightarrow> b AND 0x80 = 0"
  by (auto simp: encodeSize_def js_and_7F septet_high_bit_clear)

text \<open>
  Claim C2. For every \<open>n\<close> with \<open>0 \<le> n < 2^28\<close>, the four bytes that \<open>create\<close> computes
  for the size \<open>n\<close> decode to \<open>n\<close> again with \<open>decodeSize\<close>, and each of the four bytes
  has its bit 7 (0x80) clear.
\<close>
theorem synchsafe_roundtrip:
  assumes "0 \<le> n" and "n < 2 ^ 28"
  shows "length (encodeSize n) = 4
         \<and> decodeSize (encodeSize n) = n
         \<and> (\<forall>b \<in> set (encodeSize n). b AND 0x80 = 0)"
  using assms by (simp add: decodeSize_encodeSize encodeSize_high_bits) (simp add: encodeSize_def)

theorem synchsafe_roundtrip_witness:
  "(0::int) \<le> 300 \<and> (300::int) < 2 ^ 28
   \<and> encodeSize 300 = [0x00, 0x00, 0x02, 0x2C]
   \<and> decodeSize (encodeSize 300) = 300
   \<and> (0x2C :: byte) AND 0x80 = 0"
proof -
  have e: "encodeSize 300 = [0x00, 0x00, 0x02, 0x2C]"
    by (simp add: encodeSize_def js_and_def js_shr_def toInt32_def)
  have "decodeSize (encodeSize 300) = 300" and "\<forall>b \<in> set (encodeSize 300). b AND 0x80 = 0"
    using synchsafe_roundtrip [of 300] by simp_all
  then show ?thesis by (simp add: e)
qed


section \<open>Text frames\<close>

lemma length_buf_put [simp]: "length (buf_put buf offset bytes) = length buf"
  by (auto simp: buf_put_def Let_def min_def)

lemma buf_put_4_of_10:
  assumes "length buf = 10"
  shows "buf_put buf 4 [w0, w1, w2, w3] = take 4 buf @ [w0, w1, w2, w3] @ drop 8 buf"
  using assms by (simp add: buf_put_def Let_def)

lemma uint_byte_of_int: "0 \<le> x \<Longrightarrow> x < 256 \<Longrightarrow> uint (word_of_int x :: byte) = x"
  by (simp add: uint_word_of_int)

lemma readUIntBE_4:
  "readUIntBE [w0, w1, w2, w3] = ((uint w0 * 256 + uint w1) * 256 + uint w2) * 256 + uint w3"
  by (simp add: readUIntBE_def)

lemma be32_digits:
  assumes "0 \<le> v" "v \<le> 4294967295"
  shows "readUIntBE [word_of_int (v div 16777216), word_of_int (v div 65536 mod 256),
                     word_of_int (v div 256 mod 256), word_of_int (v mod 256)] = v"
proof -
  define q1 where "q1 = v div 256"
  define q2 where "q2 = q1 div 256"
  define q3 where "q3 = q2 div 256"
  have d1: "v div 256 = q1" by (simp add: q1_def)
  have d2: "v div 65536 = q2"
    using zdiv_zmult2_eq [where a = v and b = 256 and c = 256] by (simp add: q1_def q2_def)
  have d3: "v div 16777216 = q3"
    using zdiv_zmult2_eq [where a = v and b = 65536 and c = 256] d2 by (simp add: q3_def)
  have q3b: "0 \<le> q3" "q3 < 256" using assms d3 by simp_all
  have m: "0 \<le> x mod 256" "x mod 256 < 256" for x :: int
    using pos_mod_bound [of 256 x] by simp_all
  have n1: "v = q1 * 256 + v mod 256" by (simp add: q1_def)
  have n2: "q1 = q2 * 256 + q1 mod 256" by (simp add: q2_def)
  have n3: "q2 = q3 * 256 + q2 mod 256" by (simp add: q3_def)
  have "readUIntBE [word_of_int q3, word_of_int (q2 mod 256),
                    word_of_int (q1 mod 256), word_of_int (v mod 256)]
        = ((q3 * 256 + q2 mod 256) * 256 + q1 mod 256) * 256 + v mod 256"
    unfolding readUIntBE_4 using q3b by (simp add: uint_byte_of_int m)
  also have "\<dots> = v" using n1 n2 n3 by simp
  finally show ?thesis by (simp only: d1 d2 d3)
qed

lemma buf_put_4_of_10_parts:
  assumes "length buf = 10"
  shows "take 4 (drop 4 (buf_put buf 4 [w0, w1, w2, w3])) = [w0, w1, w2, w3]"
    and "take 4 (buf_put buf 4 [w0, w1, w2, w3]) = take 4 buf"
  unfolding buf_put_4_of_10 [OF assms] using assms by simp_all

lemma writeUInt32BE_Inr:
  assumes "writeUInt32BE buf v offset = Inr buf'"
  shows "0 \<le> v" and "v \<le> 4294967295"
    and "buf' = buf_put buf offset
             [word_of_int (v div 16777216), word_of_int (v div 65536 mod 256),
              word_of_int (v div 256 mod 256), word_of_int (v mod 256)]"
proof -
  have nr: "\<not> (v < 0 \<or> 4294967295 < v)"
  proof
    assume "v < 0 \<or> 4294967295 < v"
    then have "writeUInt32BE buf v offset = Inl RangeError"
      unfolding writeUInt32BE_def by (simp only: if_True)
    with assms show False by simp
  qed
  then show "0 \<le> v" and "v \<le> 4294967295" by simp_all
  from nr have "writeUInt32BE buf v offset = Inr (buf_put buf offset
             [word_of_int (v div 16777216), word_of_int (v div 65536 mod 256),
              word_of_int (v div 256 mod 256), word_of_int (v mod 256)])"
    unfolding writeUInt32BE_def by (simp only: if_False)
  with assms show "buf' = buf_put buf offset
             [word_of_int (v div 16777216), word_of_int (v div 65536 mod 256),
              word_of_int (v div 256 mod 256), word_of_int (v mod 256)]"
    by (simp only: sum.inject)
qed

lemma writeUInt32BE_header:
  assumes "length hdr = 10" and "writeUInt32BE hdr v 4 = Inr hdr'"
  shows "length hdr' = 10" and "readUIntBE (take 4 (drop 4 hdr')) = v"
    and "take 4 hdr' = take 4 hdr"
proof -
  note w = writeUInt32BE_Inr [OF assms(2)]
  show "length hdr' = 10" unfolding w(3) using assms(1) by (simp only: length_buf_put)
  show "readUIntBE (take 4 (drop 4 hdr')) = v"
    unfolding w(3) buf_put_4_of_10_parts(1) [OF assms(1)] by (rule be32_digits [OF w(1) w(2)])
  show "take 4 hdr' = take 4 hdr"
    unfolding w(3) by (rule buf_put_4_of_10_parts(2) [OF assms(1)])
qed

lemma length_buf_write [simp]: "length (buf_write buf s offset) = length buf"
  by (simp add: buf_write_def)

text \<open>
  Claim C10. Every buffer that \<open>createTextFrame\<close> returns is size-consistent: its
  length is 10 plus the number stored big-endian in its bytes 4 to 7, that number is the
  length of the UTF-16 encoding of the text plus 1, and the byte after the header (the
  encoding byte) is 0x01.
\<close>
theorem createTextFrame_size_consistent:
  assumes "createTextFrame name text = Inr frame"
  shows "int (length frame) = 10 + readUInt32BE frame 4
         \<and> readUInt32BE frame 4 = int (length (iconv_encode_utf16 text)) + 1
         \<and> frame ! 10 = 0x01"
proof -
  let ?enc = "iconv_encode_utf16 text"
  let ?hdr = "buf_write (replicate 10 0) name 0"
  obtain hdr' where w: "writeUInt32BE ?hdr (int (length ?enc) + 1) 4 = Inr hdr'"
    and f: "frame = hdr' @ [0x01] @ ?enc"
    using assms by (auto simp: createTextFrame_def Let_def split: sum.splits)
  have l: "length ?hdr = 10" by simp
  have h: "length hdr' = 10" "readUIntBE (take 4 (drop 4 hdr')) = int (length ?enc) + 1"
    by (rule writeUInt32BE_header [OF l w])+
  have "take 4 (drop 4 frame) = take 4 (drop 4 hdr')"
    using h(1) by (simp add: f)
  then have "readUInt32BE frame 4 = int (length ?enc) + 1"
    using h(2) by (simp add: readUInt32BE_def)
  moreover have "length frame = 10 + 1 + length ?enc" using h(1) by (simp add: f)
  moreover have "frame ! 10 = 0x01" using h(1) by (simp add: f nth_append)
  ultimately show ?thesis by simp
qed

lemma writeUInt32BE_in_range:
  assumes "0 \<le> v" "v \<le> 4294967295"
  shows "\<exists>b. writeUInt32BE buf v off = Inr b"
proof -
  have "\<not> (v < 0 \<or> 4294967295 < v)" using assms by simp
  then show ?thesis unfolding writeUInt32BE_def by (simp only: if_False) blast
qed

lemma createTextFrame_returns:
  assumes "int (length (iconv_encode_utf16 text)) + 1 \<le> 4294967295"
  shows "\<exists>frame. createTextFrame name text = Inr frame"
proof -
  have "0 \<le> int (length (iconv_encode_utf16 text)) + 1" by simp
  from writeUInt32BE_in_range [OF this assms]
  obtain b where "writeUInt32BE (buf_write (replicate 10 0) name 0)
                    (int (length (iconv_encode_utf16 text)) + 1) 4 = Inr b"
    by blast
  then show ?thesis
    unfolding createTextFrame_def Let_def by (simp only: sum.case) blast
qed

lemma length_iconv_encode_utf16: "length (iconv_encode_utf16 s) = 2 + 2 * length s"
  by (induction s) (simp_all add: iconv_encode_utf16_def)


theorem createTextFrame_size_consistent_witness:
  "createTextFrame ''TIT2'' (js ''abc'') =
     Inr [0x54, 0x49, 0x54, 0x32, 0, 0, 0, 9, 0, 0, 0x01, 0xFF, 0xFE, 0x61, 0, 0x62, 0, 0x63, 0]
   \<and> readUInt32BE [0x54, 0x49, 0x54, 0x32, 0, 0, 0, 9, 0, 0, 0x01, 0xFF, 0xFE, 0x61, 0, 0x62, 0, 0x63, 0] 4 = 9
   \<and> length (iconv_encode_utf16 (js ''abc'')) = 8"
proof -
  have c: "createTextFrame ''TIT2'' (js ''abc'') =
     Inr [0x54, 0x49, 0x54, 0x32, 0, 0, 0, 9, 0, 0, 0x01, 0xFF, 0xFE, 0x61, 0, 0x62, 0, 0x63, 0]"
    by code_simp
  have l: "length (iconv_encode_utf16 (js ''abc'')) = 8"
    by (simp add: length_iconv_encode_utf16 js_def)
  show ?thesis
    using createTextFrame_size_consistent [OF c] by (simp add: c l)
qed


section \<open>Removing a tag\<close>

lemma or4_and_80:
  "((a OR b OR c OR d) AND 0x80 = (0::byte))
   \<longleftrightarrow> a AND 0x80 = 0 \<and> b AND 0x80 = 0 \<and> c AND 0x80 = 0 \<and> d AND 0x80 = 0"
  by (simp add: bit.conj_disj_distrib2 or_eq_0_iff conj_ac)

lemma buf_from_array_at:
  "buf_from_array [buf_at data i] ! 0 = (if i < length data then data ! i else 0)"
  by (simp add: buf_from_array_def buf_at_def)

lemma hSize_nth:
  "buf_from_array [buf_at data a, buf_at data b, buf_at data c, buf_at data d]
   = [size_byte data a, size_byte data b, size_byte data c, size_byte data d]"
  by (simp add: buf_from_array_def buf_at_def size_byte_def)

lemma remove_no_tag: "getFramePosition data = None \<Longrightarrow> remove data = Removed data"
  by (simp add: remove_def)

lemma remove_tag:
  assumes "getFramePosition data = Some p"
  shows "remove data =
     (if size_byte data (p + 6) AND 0x80 = 0 \<and> size_byte data (p + 7) AND 0x80 = 0
         \<and> size_byte data (p + 8) AND 0x80 = 0 \<and> size_byte data (p + 9) AND 0x80 = 0
      then Removed (drop (p + nat (decodeSize [size_byte data (p + 6), size_byte data (p + 7),
                                     size_byte data (p + 8), size_byte data (p + 9)]) + 10) data)
      else InvalidTagSize)"
  using assms by (simp add: remove_def hSize_nth or4_and_80 buf_slice_from_def Let_def)

text \<open>
  Claim C5. Given a buffer in which a tag is located and one of the four size bytes of
  its header (offsets 6 to 9 after the marker) lies in the buffer and has bit 7 set,
  \<open>remove\<close> returns the failure value (\<^verbatim>\<open>false\<close>); it raises nothing and returns no
  buffer. Given a buffer in which no tag is located, \<open>remove\<close> returns the buffer
  unchanged.
\<close>
theorem remove_invalid_size_or_absent:
  "(getFramePosition data = None \<longrightarrow> remove data = Removed data)
   \<and> (\<forall>p k. getFramePosition data = Some p \<and> 6 \<le> k \<and> k \<le> 9 \<and> p + k < length data
             \<and> data ! (p + k) AND 0x80 \<noteq> 0
          \<longrightarrow> remove data = InvalidTagSize)"
proof (intro conjI allI impI)
  assume "getFramePosition data = None"
  then show "remove data = Removed data" by (rule remove_no_tag)
next
  fix p k
  assume a: "getFramePosition data = Some p \<and> 6 \<le> k \<and> k \<le> 9 \<and> p + k < length data
             \<and> data ! (p + k) AND 0x80 \<noteq> 0"
  then have "k = 6 \<or> k = 7 \<or> k = 8 \<or> k = 9" by arith
  moreover have "size_byte data (p + k) AND 0x80 \<noteq> 0" using a by (simp add: size_byte_def)
  ultimately have "\<not> (size_byte data (p + 6) AND 0x80 = 0 \<and> size_byte data (p + 7) AND 0x80 = 0
         \<and> size_byte data (p + 8) AND 0x80 = 0 \<and> size_byte data (p + 9) AND 0x80 = 0)"
    by auto
  then show "remove data = InvalidTagSize"
    using a remove_tag [of data p] by simp
qed


theorem remove_invalid_size_or_absent_witness:
  "getFramePosition [0x01, 0x02, 0x03] = None
   \<and> remove [0x01, 0x02, 0x03] = Removed [0x01, 0x02, 0x03]
   \<and> getFramePosition [0x49, 0x44, 0x33, 0x03, 0, 0, 0x80, 0, 0, 0] = Some 0
   \<and> [0x49, 0x44, 0x33, 0x03, 0, 0, 0x80, 0, 0, 0 :: byte] ! 6 AND 0x80 \<noteq> 0
   \<and> remove [0x49, 0x44, 0x33, 0x03, 0, 0, 0x80, 0, 0, 0] = InvalidTagSize"
proof -
  let ?x = "[0x49, 0x44, 0x33, 0x03, 0, 0, 0x80, 0, 0, 0] :: buffer"
  have g1: "getFramePosition [0x01, 0x02, 0x03] = None" by code_simp
  have g2: "getFramePosition ?x = Some 0" by code_simp
  have b: "?x ! 6 AND 0x80 \<noteq> 0" by simp
  have r1: "remove [0x01, 0x02, 0x03] = Removed [0x01, 0x02, 0x03]"
    using remove_invalid_size_or_absent [of "[0x01, 0x02, 0x03]"] g1 by blast
  have "getFramePosition ?x = Some 0 \<and> (6::nat) \<le> 6 \<and> (6::nat) \<le> 9 \<and> 0 + 6 < length ?x
        \<and> ?x ! (0 + 6) AND 0x80 \<noteq> 0"
    using g2 b by simp
  then have r2: "remove ?x = InvalidTagSize"
    using remove_invalid_size_or_absent [of ?x] by blast
  show ?thesis using g1 g2 b r1 r2 by simp
qed



section \<open>Locating a tag\<close>

lemma find_from_Some:
  "find_from pat xs i = Some p \<Longrightarrow>
     i \<le> p \<and> p - i < length xs \<and> take (length pat) (drop (p - i) xs) = pat"
proof (induction xs arbitrary: i)
  case Nil
  then show ?case by simp
next
  case (Cons x xs)
  show ?case
  proof (cases "take (length pat) (x # xs) = pat")
    case True
    with Cons.prems have "p = i" by simp
    with True show ?thesis by simp
  next
    case False
    with Cons.prems have "find_from pat xs (Suc i) = Some p" by simp
    from Cons.IH [OF this]
    have "Suc i \<le> p" "p - Suc i < length xs" "take (length pat) (drop (p - Suc i) xs) = pat"
      by simp_all
    moreover from \<open>Suc i \<le> p\<close> have "p - i = Suc (p - Suc i)" by simp
    ultimately show ?thesis by simp
  qed
qed

lemma find_from_take_None:
  assumes "pat \<noteq> []" and "find_from pat (take n xs) i = None"
  shows "find_from pat xs i = None
         \<or> (\<exists>p. find_from pat xs i = Some p \<and> n + i < p + length pat)"
  using assms(2)
proof (induction xs arbitrary: n i)
  case Nil
  then show ?case by simp
next
  case (Cons x xs)
  show ?case
  proof (cases n)
    case 0
    show ?thesis
    proof (cases "find_from pat (x # xs) i")
      case None
      then show ?thesis by simp
    next
      case (Some p)
      from find_from_Some [OF this] have "i \<le> p" by blast
      then have "n + i < p + length pat" using 0 assms(1) by (cases pat) simp_all
      with Some show ?thesis by blast
    qed
  next
    case (Suc m)
    show ?thesis
    proof (cases "take (length pat) (x # xs) = pat")
      case True
      show ?thesis
      proof (cases "length pat \<le> Suc m")
        case le: True
        have "take (length pat) (take (Suc m) (x # xs)) = take (length pat) (x # xs)"
          using le by (simp only: take_take min_absorb1)
        then have "take (length pat) (x # take m xs) = pat" using True by simp
        with Cons.prems Suc show ?thesis by simp
      next
        case False
        then show ?thesis using True Suc by simp
      qed
    next
      case False
      have nm: "take (length pat) (x # take m xs) \<noteq> pat"
      proof
        assume m: "take (length pat) (x # take m xs) = pat"
        then have "length (take (length pat) (x # take m xs)) = length pat" by simp
        then have "length pat \<le> Suc m" by (simp add: min_def split: if_splits)
        then have "take (length pat) (take (Suc m) (x # xs)) = take (length pat) (x # xs)"
          by (simp only: take_take min_absorb1)
        with m False show False by simp
      qed
      with Cons.prems Suc have "find_from pat (take m xs) (Suc i) = None" by simp
      from Cons.IH [OF this]
      show ?thesis using False Suc by auto
    qed
  qed
qed

lemma getFramePosition_Some:
  assumes "getFramePosition buffer = Some p"
  shows "p \<le> 20" and "take 3 (drop p buffer) = ascii ''ID3''" and "p < length buffer"
proof -
  from assms have f: "find_from (ascii ''ID3'') buffer 0 = Some p" and "p \<le> 20"
    by (auto simp: getFramePosition_def buf_indexOf_def split: option.splits if_splits)
  then show "p \<le> 20" by simp
  have l: "length (ascii ''ID3'') = 3" by (simp add: ascii_def)
  from find_from_Some [OF f]
  have "p - 0 < length buffer"
    and "take (length (ascii ''ID3'')) (drop (p - 0) buffer) = ascii ''ID3''"
    by blast+
  then show "take 3 (drop p buffer) = ascii ''ID3''" "p < length buffer"
    unfolding l by simp_all
qed

lemma no_marker_in_23:
  assumes "buf_indexOf (take 23 buffer) (ascii ''ID3'') 0 = None"
  shows "getFramePosition buffer = None"
proof -
  have "ascii ''ID3'' \<noteq> []" by (simp add: ascii_def)
  moreover have "find_from (ascii ''ID3'') (take 23 buffer) 0 = None"
    using assms by (simp add: buf_indexOf_def)
  ultimately have "find_from (ascii ''ID3'') buffer 0 = None
      \<or> (\<exists>p. find_from (ascii ''ID3'') buffer 0 = Some p \<and> 23 + 0 < p + length (ascii ''ID3''))"
    by (rule find_from_take_None)
  then show ?thesis
    by (auto simp: getFramePosition_def buf_indexOf_def ascii_def)
qed

lemma read_no_tag: "getFramePosition buffer = None \<Longrightarrow> read strict buffer = Inr []"
  by (simp add: read_def)

text \<open>
  Claim C6, as the code has it. \<open>getFramePosition\<close> accepts the first marker "ID3" when
  it starts at an offset of at most 20, so the marker lies within the first 23 bytes.
  For every buffer whose first 23 bytes contain no marker, \<open>read\<close> returns the empty
  mapping and \<open>remove\<close> returns the input unchanged; and whenever a tag is located, its
  marker starts at an offset of at most 20.
\<close>
theorem absence_safety:
  "(buf_indexOf (take 23 buffer) (ascii ''ID3'') 0 = None
      \<longrightarrow> read strict buffer = Inr [] \<and> remove buffer = Removed buffer)
   \<and> (\<forall>p. getFramePosition buffer = Some p
          \<longrightarrow> p \<le> 20 \<and> take 3 (drop p buffer) = ascii ''ID3'')"
  using no_marker_in_23 [of buffer] read_no_tag [of buffer strict] remove_no_tag [of buffer]
    getFramePosition_Some(1,2) [of buffer]
  by blast

theorem absence_safety_witness:
  "buf_indexOf (take 23 (replicate 21 0 @ [0x49, 0x44, 0x33, 0x03, 0, 0, 0, 0, 0, 0]))
     (ascii ''ID3'') 0 = None
   \<and> read True (replicate 21 0 @ [0x49, 0x44, 0x33, 0x03, 0, 0, 0, 0, 0, 0]) = Inr []
   \<and> remove (replicate 21 0 @ [0x49, 0x44, 0x33, 0x03, 0, 0, 0, 0, 0, 0])
       = Removed (replicate 21 0 @ [0x49, 0x44, 0x33, 0x03, 0, 0, 0, 0, 0, 0])
   \<and> getFramePosition [0x49, 0x44, 0x33, 0x03, 0, 0, 0, 0, 0, 0] = Some 0
   \<and> take 3 (drop 0 [0x49, 0x44, 0x33, 0x03, 0, 0, 0, 0, 0, 0]) = ascii ''ID3''"
proof -
  let ?x = "replicate 21 0 @ [0x49, 0x44, 0x33, 0x03, 0, 0, 0, 0, 0, 0] :: buffer"
  let ?y = "[0x49, 0x44, 0x33, 0x03, 0, 0, 0, 0, 0, 0] :: buffer"
  have a: "buf_indexOf (take 23 ?x) (ascii ''ID3'') 0 = None" by code_simp
  have b: "getFramePosition ?y = Some 0" by code_simp
  from a absence_safety [of ?x True]
  have "read True ?x = Inr [] \<and> remove ?x = Removed ?x" by blast
  moreover from b absence_safety [of ?y True]
  have "0 \<le> (20::nat) \<and> take 3 (drop 0 ?y) = ascii ''ID3''" by blast
  ultimately show ?thesis using a b by simp
qed

text \<open>
  Claim C6 as stated fails: in the buffer of 20 zero bytes followed by an empty tag and
  the byte AA, the first 20 bytes contain no marker, yet the tag is located (at offset
  20) and \<open>remove\<close> returns only the byte AA.
\<close>
theorem absence_safety_counterexample:
  "buf_indexOf (take 20 (replicate 20 0 @ [0x49, 0x44, 0x33, 0x03, 0, 0, 0, 0, 0, 0, 0xAA]))
     (ascii ''ID3'') 0 = None
   \<and> getFramePosition (replicate 20 0 @ [0x49, 0x44, 0x33, 0x03, 0, 0, 0, 0, 0, 0, 0xAA]) = Some 20
   \<and> remove (replicate 20 0 @ [0x49, 0x44, 0x33, 0x03, 0, 0, 0, 0, 0, 0, 0xAA]) = Removed [0xAA]
   \<and> remove (replicate 20 0 @ [0x49, 0x44, 0x33, 0x03, 0, 0, 0, 0, 0, 0, 0xAA])
       \<noteq> Removed (replicate 20 0 @ [0x49, 0x44, 0x33, 0x03, 0, 0, 0, 0, 0, 0, 0xAA])"
  by code_simp

section \<open>Removing twice\<close>

lemma remove_changes_located:
  assumes "getFramePosition y = Some p"
  shows "remove y \<noteq> Removed y"
proof -
  have "p < length y" using assms by (rule getFramePosition_Some(3))
  then have "length (drop (p + n + 10) y) < length y" for n by simp
  then have "drop (p + n + 10) y \<noteq> y" for n by (metis less_irrefl)
  then show ?thesis
    unfolding remove_tag [OF assms] by (simp split: if_splits)
qed

text \<open>
  Claim C7, as the code has it. When \<open>remove\<close> returns a buffer \<open>y\<close>, removing again
  returns \<open>y\<close> exactly when no tag is located in \<open>y\<close>: \<open>remove\<close> strips one tag, and
  is idempotent on the inputs whose remainder holds no further marker at an offset of
  at most 20.
\<close>
theorem remove_idempotent_iff:
  assumes "remove x = Removed y"
  shows "(remove y = Removed y) \<longleftrightarrow> (getFramePosition y = None)"
proof
  assume "remove y = Removed y"
  then show "getFramePosition y = None"
    using remove_changes_located [of y] by (cases "getFramePosition y") auto
next
  assume "getFramePosition y = None"
  then show "remove y = Removed y" by (rule remove_no_tag)
qed

theorem remove_idempotent_iff_witness:
  "remove [0x49, 0x44, 0x33, 0x03, 0, 0, 0, 0, 0, 0, 0x01, 0x02, 0x03] = Removed [0x01, 0x02, 0x03]
   \<and> getFramePosition [0x01, 0x02, 0x03] = None
   \<and> remove [0x01, 0x02, 0x03] = Removed [0x01, 0x02, 0x03]"
proof -
  have a: "remove [0x49, 0x44, 0x33, 0x03, 0, 0, 0, 0, 0, 0, 0x01, 0x02, 0x03]
           = Removed [0x01, 0x02, 0x03]" by code_simp
  have b: "getFramePosition [0x01, 0x02, 0x03] = None" by code_simp
  from remove_idempotent_iff [OF a] b
  have "remove [0x01, 0x02, 0x03] = Removed [0x01, 0x02, 0x03]" by blast
  with a b show ?thesis by blast
qed

text \<open>
  Claim C7 as stated fails: on two empty tags in a row the first \<open>remove\<close> leaves the
  second tag, and the second \<open>remove\<close> strips it.
\<close>
theorem remove_idempotent_counterexample:
  "remove [0x49, 0x44, 0x33, 0x03, 0, 0, 0, 0, 0, 0, 0x49, 0x44, 0x33, 0x03, 0, 0, 0, 0, 0, 0]
     = Removed [0x49, 0x44, 0x33, 0x03, 0, 0, 0, 0, 0, 0]
   \<and> remove [0x49, 0x44, 0x33, 0x03, 0, 0, 0, 0, 0, 0] = Removed []
   \<and> remove [0x49, 0x44, 0x33, 0x03, 0, 0, 0, 0, 0, 0]
       \<noteq> remove [0x49, 0x44, 0x33, 0x03, 0, 0, 0, 0, 0, 0, 0x49, 0x44, 0x33, 0x03, 0, 0, 0, 0, 0, 0]"
  by code_simp

section \<open>Writing a tag\<close>

lemma write'_concat:
  "create frms = Inr tag \<Longrightarrow> remove source = Removed rest \<Longrightarrow> write' source frms = Inr (tag @ rest)"
  by (simp add: write'_def)

text \<open>
  Claim C4 at a source whose located tag has a size byte with bit 7 set: \<open>remove\<close>
  returns \<^verbatim>\<open>false\<close>, and \<open>write\<close> raises a \<open>TypeError\<close> instead of returning a buffer.
\<close>
theorem write_invalid_size_raises:
  "getFramePosition [0x49, 0x44, 0x33, 0x03, 0, 0, 0x80, 0, 0, 0, 0xAA] = Some 0
   \<and> remove [0x49, 0x44, 0x33, 0x03, 0, 0, 0x80, 0, 0, 0, 0xAA] = InvalidTagSize
   \<and> create [(''title'', TextValue (js ''abc''))]
     = Inr [0x49, 0x44, 0x33, 0x03, 0, 0, 0, 0, 0, 19,
            0x54, 0x49, 0x54, 0x32, 0, 0, 0, 9, 0, 0, 0x01, 0xFF, 0xFE, 0x61, 0, 0x62, 0, 0x63, 0]
   \<and> write' [0x49, 0x44, 0x33, 0x03, 0, 0, 0x80, 0, 0, 0, 0xAA] [(''title'', TextValue (js ''abc''))]
     = Inl TypeError"
  by code_simp

section \<open>The descriptor scan\<close>

text \<open>
  When the scan returns, it returns a position inside the buffer, so the test
  \<^verbatim>\<open>data[i] === undefined\<close> after the loop never holds; and from a position at the last
  byte or beyond, the loop never ends.
\<close>

lemma scan_descriptor_Some:
  assumes "scan_descriptor data i = Some j"
  shows "i \<le> j \<and> j + 1 < length data"
  using assms
proof (induct rule: scan_descriptor.raw_induct [rotated 1, consumes 1])
  case (1 f data i j)
  show ?case
  proof (cases "(buf_at data i \<noteq> None \<and> buf_at data i \<noteq> Some 0)
         \<or> buf_at data (i + 1) \<noteq> Some 0 \<or> buf_at data (i + 2) = Some 0")
    case True
    from 1(2) have "f data (i + 1) = Some j" unfolding if_P [OF True] .
    from 1(1) [OF this] show ?thesis by simp
  next
    case False
    from 1(2) have "Some i = Some j" unfolding if_not_P [OF False] .
    then have "j = i" by simp
    moreover from False have "buf_at data (i + 1) = Some 0" by blast
    then have "i + 1 < length data" by (simp add: buf_at_def split: if_splits)
    ultimately show ?thesis by simp
  qed
qed

lemma scan_descriptor_defined:
  "scan_descriptor data i = Some j \<Longrightarrow> buf_at data j \<noteq> None"
  using scan_descriptor_Some [of data i j] by (simp add: buf_at_def)

lemma scan_descriptor_short: "length data \<le> i + 1 \<Longrightarrow> scan_descriptor data i = None"
  using scan_descriptor_Some [of data i] by (cases "scan_descriptor data i") auto


lemma scan_descriptor_code:
  "scan_descriptor data i =
     (if length data \<le> i + 1 then None
      else if (buf_at data i \<noteq> None \<and> buf_at data i \<noteq> Some 0)
              \<or> buf_at data (i + 1) \<noteq> Some 0 \<or> buf_at data (i + 2) = Some 0
      then scan_descriptor data (i + 1)
      else Some i)"
proof (cases "length data \<le> i + 1")
  case True
  then show ?thesis by (simp only: scan_descriptor_short if_True)
next
  case False
  show ?thesis
    unfolding if_not_P [OF False] by (rule scan_descriptor.simps)
qed

text \<open>For evaluation, the equation that gives the result for the loop that never ends.\<close>
declare scan_descriptor.simps [code del]
declare scan_descriptor_code [code]


section \<open>The layout of a created tag\<close>

lemma foldl_lengths:
  "foldl (\<lambda>acc cur. acc + int (length cur)) a xs = a + int (length (concat xs))"
  by (induction xs arbitrary: a) simp_all

lemma encodeSize_length: "length (encodeSize n) = 4"
  by (simp add: encodeSize_def)

lemma create_layout:
  assumes "create frms = Inr tag"
  shows "\<exists>encoded. encodeFrames frms = Inr encoded
           \<and> tag = [0x49, 0x44, 0x33, 0x03, 0x00, 0x00]
                   @ encodeSize (int (length (concat encoded))) @ concat encoded"
proof -
  obtain encoded where e: "encodeFrames frms = Inr encoded"
    using assms by (cases "encodeFrames frms") (simp_all add: create_def)
  have h: "writeUInt16BE (writeUInt16BE (buf_write (replicate 10 0) ''ID3'' 0) 0x0300 3) 0x0000 5
           = [0x49, 0x44, 0x33, 0x03, 0, 0, 0, 0, 0, 0]"
    by code_simp
  obtain s0 s1 s2 s3 where s: "encodeSize (int (length (concat encoded))) = [s0, s1, s2, s3]"
    by (simp add: encodeSize_def)
  have w: "writeUInt8 (writeUInt8 (writeUInt8 (writeUInt8
             [0x49, 0x44, 0x33, 0x03, 0, 0, 0, 0, 0, 0] s0 6) s1 7) s2 8) s3 9
           = [0x49, 0x44, 0x33, 0x03, 0, 0, s0, s1, s2, s3]"
    by (simp add: writeUInt8_def buf_put_def)
  have "tag = [0x49, 0x44, 0x33, 0x03, 0, 0, s0, s1, s2, s3] @ concat encoded"
    using assms by (simp add: create_def e h Let_def foldl_lengths s w)
  then show ?thesis using e s by simp
qed

section \<open>Reading back what was created\<close>

text \<open>
  Claim C1 at the mapping \<open>{title: "abc"}\<close>: \<open>read\<close> of the created tag returns
  \<open>{undefined: ""}\<close>. The body buffer of \<open>read\<close> is 9 bytes shorter than the body, so
  the text is lost; and \<open>convertNameToAlias\<close> has no alias for TIT2. With the alias
  \<open>fileOwner\<close>, whose identifier has an alias, the text is still lost.
\<close>
theorem roundtrip_title_fails:
  "create [(''title'', TextValue (js ''abc''))]
     = Inr [0x49, 0x44, 0x33, 0x03, 0, 0, 0, 0, 0, 19,
            0x54, 0x49, 0x54, 0x32, 0, 0, 0, 9, 0, 0, 0x01, 0xFF, 0xFE, 0x61, 0, 0x62, 0, 0x63, 0]
   \<and> read True [0x49, 0x44, 0x33, 0x03, 0, 0, 0, 0, 0, 19,
            0x54, 0x49, 0x54, 0x32, 0, 0, 0, 9, 0, 0, 0x01, 0xFF, 0xFE, 0x61, 0, 0x62, 0, 0x63, 0]
     = Inr [(''undefined'', TextValue [])]
   \<and> read False [0x49, 0x44, 0x33, 0x03, 0, 0, 0, 0, 0, 19,
            0x54, 0x49, 0x54, 0x32, 0, 0, 0, 9, 0, 0, 0x01, 0xFF, 0xFE, 0x61, 0, 0x62, 0, 0x63, 0]
     = Inr [(''undefined'', TextValue [])]
   \<and> convertNameToAlias ''TIT2'' = None
   \<and> create [(''fileOwner'', TextValue (js ''abc''))]
     = Inr [0x49, 0x44, 0x33, 0x03, 0, 0, 0, 0, 0, 19,
            0x54, 0x4F, 0x57, 0x4E, 0, 0, 0, 9, 0, 0, 0x01, 0xFF, 0xFE, 0x61, 0, 0x62, 0, 0x63, 0]
   \<and> read True [0x49, 0x44, 0x33, 0x03, 0, 0, 0, 0, 0, 19,
            0x54, 0x4F, 0x57, 0x4E, 0, 0, 0, 9, 0, 0, 0x01, 0xFF, 0xFE, 0x61, 0, 0x62, 0, 0x63, 0]
     = Inr [(''fileOwner'', TextValue [])]"
  by code_simp

text \<open>
  Claim C3 at the tag that \<open>create\<close> returns for the empty mapping (a located tag with
  an empty body): \<open>read\<close> raises a \<open>RangeError\<close>. And at a tag of version 2.3 whose
  only frame is a TXXX frame with the payload 01 (an encoding byte and no terminated
  descriptor), followed by nine bytes of padding: \<open>read\<close> never returns.
\<close>
theorem read_empty_tag_raises:
  "create [] = Inr [0x49, 0x44, 0x33, 0x03, 0, 0, 0, 0, 0, 0]
   \<and> read True [0x49, 0x44, 0x33, 0x03, 0, 0, 0, 0, 0, 0] = Inl RangeError
   \<and> read False [0x49, 0x44, 0x33, 0x03, 0, 0, 0, 0, 0, 0] = Inl RangeError
   \<and> read True [0x49, 0x44, 0x33, 0x03, 0, 0, 0, 0, 0, 20,
                 0x54, 0x58, 0x58, 0x58, 0, 0, 0, 1, 0, 0, 0x01, 0, 0, 0, 0, 0, 0, 0, 0, 0]
       = Inl Diverges
   \<and> read False [0x49, 0x44, 0x33, 0x03, 0, 0, 0, 0, 0, 20,
                  0x54, 0x58, 0x58, 0x58, 0, 0, 0, 1, 0, 0, 0x01, 0, 0, 0, 0, 0, 0, 0, 0, 0]
       = Inl Diverges"
  by code_simp

text \<open>
  \<open>createUserDefinedTextFrame\<close> returns the frames of the entries, one per entry,
  concatenated in the order of the entries.
\<close>
lemma userDefinedTextLoop_concat:
  assumes "list_all2 (\<lambda>e f. createSpecialTextFrame ''TXXX''
             \<lparr>text' = value' (as_user_defined_text e), language = None,
              shortText = description (as_user_defined_text e)\<rparr> = Inr f) entries fs"
  shows "userDefinedTextLoop acc entries =
           Inr (case acc of
                  None \<Rightarrow> (if fs = [] then None else Some (concat fs))
                | Some b \<Rightarrow> Some (b @ concat fs))"
  using assms
proof (induction entries fs arbitrary: acc rule: list_all2_induct)
  case Nil
  then show ?case by (simp split: option.splits)
next
  case (Cons e es f fs)
  show ?case
    using Cons.hyps(1) Cons.IH by (simp split: option.splits)
qed

text \<open>
  Claim C8 at its two entries: \<open>write\<close> emits the two TXXX frames in order, and
  \<open>read\<close> returns a sequence of two entries whose second entry is not the one written
  (description "b", value "2") but description U+00FF with an empty value.
\<close>
theorem userDefinedText_readback:
  "write' [0xAA]
     [(''userDefinedText'',
       ArrayValue [UserDefinedTextValue \<lparr>description = js ''a'', value' = js ''1''\<rparr>,
                   UserDefinedTextValue \<lparr>description = js ''b'', value' = js ''2''\<rparr>])]
     = Inr [0x49, 0x44, 0x33, 0x03, 0, 0, 0, 0, 0, 42,
            0x54, 0x58, 0x58, 0x58, 0, 0, 0, 11, 0, 0, 0x01, 0xFF, 0xFE, 0x61, 0, 0, 0, 0xFF, 0xFE, 0x31, 0,
            0x54, 0x58, 0x58, 0x58, 0, 0, 0, 11, 0, 0, 0x01, 0xFF, 0xFE, 0x62, 0, 0, 0, 0xFF, 0xFE, 0x32, 0,
            0xAA]
   \<and> read True
       [0x49, 0x44, 0x33, 0x03, 0, 0, 0, 0, 0, 42,
        0x54, 0x58, 0x58, 0x58, 0, 0, 0, 11, 0, 0, 0x01, 0xFF, 0xFE, 0x61, 0, 0, 0, 0xFF, 0xFE, 0x31, 0,
        0x54, 0x58, 0x58, 0x58, 0, 0, 0, 11, 0, 0, 0x01, 0xFF, 0xFE, 0x62, 0, 0, 0, 0xFF, 0xFE, 0x32, 0,
        0xAA]
     = Inr [(''userDefinedText'',
             ArrayValue [UserDefinedTextValue \<lparr>description = [0x61], value' = [0x31]\<rparr>,
                         UserDefinedTextValue \<lparr>description = [0xFF], value' = []\<rparr>])]
   \<and> read False
       [0x49, 0x44, 0x33, 0x03, 0, 0, 0, 0, 0, 42,
        0x54, 0x58, 0x58, 0x58, 0, 0, 0, 11, 0, 0, 0x01, 0xFF, 0xFE, 0x61, 0, 0, 0, 0xFF, 0xFE, 0x31, 0,
        0x54, 0x58, 0x58, 0x58, 0, 0, 0, 11, 0, 0, 0x01, 0xFF, 0xFE, 0x62, 0, 0, 0, 0xFF, 0xFE, 0x32, 0,
        0xAA]
     = Inr [(''userDefinedText'',
             ArrayValue [UserDefinedTextValue \<lparr>description = [0x61], value' = [0x31]\<rparr>,
                         UserDefinedTextValue \<lparr>description = [0xFF], value' = []\<rparr>])]
   \<and> js ''b'' = [0x62] \<and> js ''2'' = [0x32]"
  by code_simp

section \<open>The language of a special text frame\<close>

lemma ascii_not_surrogate:
  assumes "(c :: 16 word) < 0x80"
  shows "\<not> is_high_surrogate c" and "\<not> is_low_surrogate c"
proof -
  have "unat c < 128" using assms by (simp add: word_less_nat_alt)
  then show "\<not> is_high_surrogate c" and "\<not> is_low_surrogate c"
    by (simp_all add: is_high_surrogate_def is_low_surrogate_def word_le_nat_alt)
qed

lemma utf8_encode_ascii:
  "\<forall>c \<in> set s. c < 0x80 \<Longrightarrow> utf8_encode s = map ucast s"
proof (induction s rule: utf8_encode.induct)
  case 1
  then show ?case by simp
next
  case (2 c)
  then have c: "c < 0x80" by simp
  then have "\<not> is_high_surrogate c" "\<not> is_low_surrogate c"
    by (rule ascii_not_surrogate)+
  moreover have "unat c < 0x80" using c by (simp add: word_less_nat_alt)
  ultimately show ?case by (simp add: utf8_of_codepoint_def)
next
  case (3 c d cs)
  then have c: "c < 0x80" by simp
  then have n: "\<not> is_high_surrogate c" "\<not> is_low_surrogate c"
    by (rule ascii_not_surrogate)+
  have u: "unat c < 0x80" using c by (simp add: word_less_nat_alt)
  have "utf8_encode (d # cs) = map ucast (d # cs)" using 3 n by simp
  then show ?case using n u by (simp add: utf8_of_codepoint_def)
qed

lemma substring_0: "substring s 0 (int n) = take n s"
  by (simp add: substring_def clamp_index_def Let_def min_def)

lemma languageBuffer_ascii:
  assumes "name \<noteq> ''TXXX''" and "language d = Some l" and "\<forall>c \<in> set l. c < 0x80"
  shows "languageBuffer name d = [map ucast (take 3 l)]"
proof -
  have "\<forall>c \<in> set (take 3 l). c < 0x80" using assms(3) by (meson in_set_takeD)
  then have "utf8_encode (take 3 l) = map ucast (take 3 l)" by (rule utf8_encode_ascii)
  moreover have "substring l 0 3 = take 3 l" using substring_0 [of l 3] by simp
  ultimately show ?thesis using assms(1,2) by (simp add: languageBuffer_def)
qed

lemma languageBuffer_absent:
  assumes "name \<noteq> ''TXXX''" and "language d = None"
  shows "languageBuffer name d = [[0x65, 0x6E, 0x67]]"
proof -
  have "utf8_encode (js ''eng'') = [0x65, 0x6E, 0x67]" by code_simp
  then show ?thesis using assms by (simp add: languageBuffer_def)
qed

text \<open>
  Claim C9 at the language of four characters U+00E9: the frame holds the UTF-8
  encoding of the first three characters, which is six bytes.
\<close>
theorem language_field_non_ascii:
  "languageBuffer ''COMM'' \<lparr>text' = js ''x'', language = Some [0xE9, 0xE9, 0xE9, 0xE9], shortText = []\<rparr>
     = [[0xC3, 0xA9, 0xC3, 0xA9, 0xC3, 0xA9]]
   \<and> createSpecialTextFrame ''COMM''
       \<lparr>text' = js ''x'', language = Some [0xE9, 0xE9, 0xE9, 0xE9], shortText = []\<rparr>
     = Inr [0x43, 0x4F, 0x4D, 0x4D, 0, 0, 0, 15, 0, 0,
            0x01, 0xC3, 0xA9, 0xC3, 0xA9, 0xC3, 0xA9, 0xFF, 0xFE, 0, 0, 0xFF, 0xFE, 0x78, 0]"
  by code_simp

end
